theory Spec2Isabelle
  imports Complex_Main
begin

section \<open>The avatar animation controller (AvatarLobsterAI)\<close>

subsection \<open>Data model\<close>

text \<open>
  The status published by the character controller's animation store
  (\<^verbatim>\<open>useAnimationStore((state) => state.animationStatus)\<close>). The store's type is a
  union of seven string literals; \<open>status_key\<close> gives the literal, which is what the
  component uses as a property name and compares with \<^verbatim>\<open>!==\<close>.
\<close>

datatype status = IDLE | WALK | RUN | JUMP_START | JUMP_IDLE | JUMP_FALL | JUMP_LAND

fun status_key :: "status \<Rightarrow> string" where
  "status_key IDLE = ''IDLE''"
| "status_key WALK = ''WALK''"
| "status_key RUN = ''RUN''"
| "status_key JUMP_START = ''JUMP_START''"
| "status_key JUMP_IDLE = ''JUMP_IDLE''"
| "status_key JUMP_FALL = ''JUMP_FALL''"
| "status_key JUMP_LAND = ''JUMP_LAND''"

text \<open>
  The object literal of \<^verbatim>\<open>statusToActionMap\<close>, key by key in the source's order. A
  property read \<^verbatim>\<open>statusToActionMap[k]\<close> or \<^verbatim>\<open>statusToActionMap.K\<close> is \<open>mapAt k\<close>;
  \<open>None\<close> stands for JavaScript's \<^verbatim>\<open>undefined\<close>.
\<close>

definition statusToActionMap :: "(string \<times> string) list" where
  "statusToActionMap =
     [(''IDLE'', ''IDLE''),
      (''WALK'', ''WALK''),
      (''RUN'', ''JOG''),
      (''JUMP_START'', ''JUMP_START''),
      (''JUMP_IDLE'', ''JUMP_LOOP''),
      (''JUMP_FALL'', ''JUMP_LOOP''),
      (''JUMP_LAND'', ''JUMP_LAND'')]"

definition mapAt :: "string \<Rightarrow> string option" where
  "mapAt k = map_of statusToActionMap k"

text \<open>
  The loop modes of the animation mixer, and the fields of an animation action that the
  component assigns directly (\<^verbatim>\<open>timeScale\<close>, \<^verbatim>\<open>clampWhenFinished\<close>). Time scales are
  decimal literals of the source read as real numbers; the two products of the source,
  \<^verbatim>\<open>0.5 * 2\<close> and \<^verbatim>\<open>0.44 * 2\<close>, are doublings, which binary floating point performs
  without rounding.
\<close>

datatype loop_mode = LoopOnce | LoopRepeat | LoopPingPong

record action =
  timeScale :: real
  clampWhenFinished :: bool

text \<open>
  The method calls the component makes on actions of the mixer, in the order made. The
  receiver is named by its clip name, the key under which \<^verbatim>\<open>useAnimations\<close> files it
  in \<^verbatim>\<open>actions\<close>; \<open>CrossFadeFrom n p d\<close> is \<^verbatim>\<open>actions[n].crossFadeFrom(actions[p], d)\<close>.
\<close>

datatype call =
    Reset string
  | CrossFadeFrom string string real
  | SetLoop string loop_mode nat
  | Play string

text \<open>
  The state of one mounted component: the React state \<^verbatim>\<open>canPlayNext\<close>, the ref
  \<^verbatim>\<open>prevActionNameRef.current\<close>, the table \<^verbatim>\<open>actions\<close> (shared objects: an assignment
  through \<^verbatim>\<open>nextAction\<close> changes the table's entry) and the calls issued so far.
\<close>

record controller =
  canPlayNext :: bool
  prevActionNameRef :: string
  actions :: "string \<rightharpoonup> action"
  calls :: "call list"

text \<open>
  \<^verbatim>\<open>crossFadeFrom(undefined, d)\<close> reads \<^verbatim>\<open>fadeOut\<close> of \<^verbatim>\<open>undefined\<close> inside the
  mixer library, which throws; nothing in the component catches it.
\<close>

datatype error = TypeError

subsection \<open>Operations\<close>

definition setTimeScale :: "string \<Rightarrow> real \<Rightarrow> controller \<Rightarrow> controller" where
  "setTimeScale n v st =
     st\<lparr>actions := (actions st)(n := map_option (\<lambda>a. a\<lparr>timeScale := v\<rparr>) (actions st n))\<rparr>"

definition setClampWhenFinished :: "string \<Rightarrow> bool \<Rightarrow> controller \<Rightarrow> controller" where
  "setClampWhenFinished n b st =
     st\<lparr>actions := (actions st)(n := map_option (\<lambda>a. a\<lparr>clampWhenFinished := b\<rparr>) (actions st n))\<rparr>"

definition issue :: "call list \<Rightarrow> controller \<Rightarrow> controller" where
  "issue cs st = st\<lparr>calls := calls st @ cs\<rparr>"

text \<open>The mount: \<^verbatim>\<open>useState(true)\<close>, \<^verbatim>\<open>useRef("IDLE")\<close>, and the first effect, which
  plays \<^verbatim>\<open>actions["IDLE"]\<close> when the table has it.\<close>

definition mount :: "(string \<rightharpoonup> action) \<Rightarrow> controller" where
  "mount acts =
     (let st = \<lparr>canPlayNext = True, prevActionNameRef = ''IDLE'', actions = acts, calls = []\<rparr>
      in if acts ''IDLE'' \<noteq> None then issue [Play ''IDLE''] st else st)"

text \<open>
  The branch taken when the next action differs from the previous one and the gate is
  open (the body of the first \<^verbatim>\<open>if\<close> of the status effect).
\<close>

definition playNext :: "string \<Rightarrow> string \<Rightarrow> controller \<Rightarrow> error + controller" where
  "playNext nextActionName prevActionName st =
     (if Some nextActionName = mapAt ''JUMP_START'' \<or> Some nextActionName = mapAt ''JUMP_LAND''
      then
        (let st1 = st\<lparr>canPlayNext := False\<rparr>;
             st2 = setTimeScale nextActionName 0.5 st1;
             st3 = issue [Reset nextActionName] st2
         in if actions st3 prevActionName = None then Inl TypeError
            else
              (let st4 = issue [CrossFadeFrom nextActionName prevActionName 0.1,
                                SetLoop nextActionName LoopOnce 1,
                                Play nextActionName] st3;
                   st5 = setClampWhenFinished nextActionName True st4
               in Inr (st5\<lparr>prevActionNameRef := nextActionName\<rparr>)))
      else
        (let st1 = st\<lparr>canPlayNext := True\<rparr>;
             st2 = setTimeScale nextActionName 1 st1;
             st3 = issue [Reset nextActionName] st2
         in if actions st3 prevActionName = None then Inl TypeError
            else
              (let st4 = issue [CrossFadeFrom nextActionName prevActionName 0.2,
                                Play nextActionName] st3
               in Inr (st4\<lparr>prevActionNameRef := nextActionName\<rparr>))))"

text \<open>The six assignments that end the status effect, in the source's order.\<close>

definition timeScaleOverrides :: "status \<Rightarrow> string \<Rightarrow> controller \<Rightarrow> controller" where
  "timeScaleOverrides ecctrlActionName nextActionName st =
     (let st1 = (if status_key ecctrlActionName = ''RUN''
                 then setTimeScale nextActionName 0.45 st else st);
          st2 = (if status_key ecctrlActionName = ''WALK''
                 then setTimeScale nextActionName 0.45 st1 else st1);
          st3 = (if status_key ecctrlActionName = ''JUMP_START''
                 then setTimeScale nextActionName (0.5 * 2) st2 else st2);
          st4 = (if status_key ecctrlActionName = ''JUMP_LAND''
                 then setTimeScale nextActionName (0.44 * 2) st3 else st3);
          st5 = (if status_key ecctrlActionName = ''JUMP_IDLE''
                 then setTimeScale nextActionName 0 st4 else st4)
      in if status_key ecctrlActionName = ''JUMP_FALL''
         then setTimeScale nextActionName 0 st5 else st5)"

text \<open>
  The two conditions under which a status reopens the gate while a one-shot clip is
  still playing. Both read the \<^verbatim>\<open>canPlayNext\<close> and the \<^verbatim>\<open>prevActionName\<close> that the
  effect captured when it started.
\<close>

definition reopenOnStatus :: "bool \<Rightarrow> string \<Rightarrow> status \<Rightarrow> controller \<Rightarrow> controller" where
  "reopenOnStatus canPlayNext0 prevActionName ecctrlActionName st =
     (let st1 = (if \<not> canPlayNext0 \<and> Some prevActionName = mapAt ''JUMP_START''
                    \<and> status_key ecctrlActionName \<noteq> ''JUMP_IDLE''
                    \<and> status_key ecctrlActionName \<noteq> ''JUMP_START''
                 then st\<lparr>canPlayNext := True\<rparr> else st)
      in if \<not> canPlayNext0 \<and> Some prevActionName = mapAt ''JUMP_LAND''
            \<and> status_key ecctrlActionName \<noteq> ''IDLE''
            \<and> status_key ecctrlActionName \<noteq> ''JUMP_LAND''
         then st1\<lparr>canPlayNext := True\<rparr> else st1)"

text \<open>
  One run of the status effect (dependencies \<^verbatim>\<open>[ecctrlActionName, canPlayNext]\<close>). The
  value of \<^verbatim>\<open>canPlayNext\<close> that the conditions read is the one of the render the effect
  belongs to, \<open>canPlayNext st\<close> of the state it starts from; \<^verbatim>\<open>setCanPlayNext\<close> only
  schedules the value of the next render, which is \<open>canPlayNext\<close> of the result.
  A status that is no key of the map gives \<^verbatim>\<open>undefined\<close>, which names no clip.
\<close>

definition statusEffect :: "status \<Rightarrow> controller \<Rightarrow> error + controller" where
  "statusEffect ecctrlActionName st =
     (case mapAt (status_key ecctrlActionName) of
        None \<Rightarrow> Inr st
      | Some nextActionName \<Rightarrow>
          (case actions st nextActionName of
             None \<Rightarrow> Inr st
           | Some nextAction \<Rightarrow>
               (let prevActionName = prevActionNameRef st;
                    r = (if nextActionName \<noteq> prevActionName \<and> canPlayNext st
                         then playNext nextActionName prevActionName st
                         else Inr st)
                in case r of
                     Inl e \<Rightarrow> Inl e
                   | Inr st1 \<Rightarrow>
                       Inr (timeScaleOverrides ecctrlActionName nextActionName
                             (reopenOnStatus (canPlayNext st) prevActionName
                                ecctrlActionName st1)))))"

text \<open>The listener for the mixer's \<^verbatim>\<open>finished\<close> event; its argument is
  \<^verbatim>\<open>e.action._clip.name\<close>.\<close>

definition onFinished :: "string \<Rightarrow> controller \<Rightarrow> controller" where
  "onFinished clipName st =
     (if \<not> canPlayNext st
         \<and> (Some clipName = mapAt ''JUMP_START'' \<or> Some clipName = mapAt ''JUMP_LAND'')
      then st\<lparr>canPlayNext := True\<rparr> else st)"

text \<open>What can happen to a mounted controller, and a run over a sequence of events; an
  exception ends the run.\<close>

datatype event = StatusUpdate status | Finished string

fun step :: "event \<Rightarrow> controller \<Rightarrow> error + controller" where
  "step (StatusUpdate s) st = statusEffect s st"
| "step (Finished clipName) st = Inr (onFinished clipName st)"

fun run :: "event list \<Rightarrow> controller \<Rightarrow> error + controller" where
  "run [] st = Inr st"
| "run (e # es) st = (case step e st of Inl err \<Rightarrow> Inl err | Inr st' \<Rightarrow> run es st')"

subsection \<open>A loaded avatar\<close>

text \<open>
  The table \<^verbatim>\<open>useAnimations\<close> builds when each of the six motion files brings one clip:
  one action per clip name given in \<^verbatim>\<open>clips\<close>, each with the mixer's defaults
  (time scale 1, no clamping). \<open>jumping\<close> is the controller after the status
  \<^verbatim>\<open>JUMP_START\<close> has been processed on such a mount: the one-shot clip is playing and
  the gate is closed.
\<close>

definition clip0 :: action where
  "clip0 = \<lparr>timeScale = 1, clampWhenFinished = False\<rparr>"

definition allClips :: "string \<rightharpoonup> action" where
  "allClips = map_of [(''IDLE'', clip0), (''WALK'', clip0), (''JOG'', clip0),
                      (''JUMP_START'', clip0), (''JUMP_LOOP'', clip0), (''JUMP_LAND'', clip0)]"

definition idleOnly :: "string \<rightharpoonup> action" where
  "idleOnly = [''IDLE'' \<mapsto> clip0]"

text \<open>A table in which only the walk file brought a clip: there is no IDLE action.\<close>

definition walkOnly :: "string \<rightharpoonup> action" where
  "walkOnly = [''WALK'' \<mapsto> clip0]"

definition jumping :: controller where
  "jumping = \<lparr>canPlayNext = False, prevActionNameRef = ''JUMP_START'',
      actions = allClips(''JUMP_START'' \<mapsto> \<lparr>timeScale = 1, clampWhenFinished = True\<rparr>),
      calls = [Play ''IDLE'', Reset ''JUMP_START'', CrossFadeFrom ''JUMP_START'' ''IDLE'' 0.1,
               SetLoop ''JUMP_START'' LoopOnce 1, Play ''JUMP_START'']\<rparr>"

section \<open>The water object (ObjectWater)\<close>

type_synonym vec3 = "real \<times> real \<times> real"

text \<open>
  An effect runs after the first render of a component, and after a later render when
  its dependency array differs from the one of the render before. \<open>None\<close> is "not
  rendered yet".
\<close>

definition effectDue :: "'d list option \<Rightarrow> 'd list \<Rightarrow> bool" where
  "effectDue before now = (case before of None \<Rightarrow> True | Some old \<Rightarrow> old \<noteq> now)"

text \<open>
  What the engine's plane geometry is to this component: the four corners of a
  \<open>w\<close> by \<open>h\<close> rectangle in the XY plane, facing +Z. \<^verbatim>\<open>rotateX\<close> turns every
  vertex and the normal about the X axis. Angles are real numbers here
  (\<^verbatim>\<open>Math.PI\<close> is \<open>pi\<close>).
\<close>

record planeGeometry =
  corners :: "vec3 list"
  normal :: vec3

definition PlaneGeometry :: "real \<Rightarrow> real \<Rightarrow> planeGeometry" where
  "PlaneGeometry w h =
     \<lparr>corners = [(- (w / 2), h / 2, 0), (w / 2, h / 2, 0),
                 (- (w / 2), - (h / 2), 0), (w / 2, - (h / 2), 0)],
      normal = (0, 0, 1)\<rparr>"

fun rotateX_vec :: "real \<Rightarrow> vec3 \<Rightarrow> vec3" where
  "rotateX_vec angle (x, y, z) =
     (x, cos angle * y - sin angle * z, sin angle * y + cos angle * z)"

definition rotateX :: "real \<Rightarrow> planeGeometry \<Rightarrow> planeGeometry" where
  "rotateX angle geo =
     geo\<lparr>corners := map (rotateX_vec angle) (corners geo),
         normal := rotateX_vec angle (normal geo)\<rparr>"

datatype side = FrontSide | BackSide | DoubleSide

text \<open>The options handed to \<^verbatim>\<open>WaterMesh\<close>; \<open>waterNormals\<close> is the texture's URL (its
  wrapping is set by the loader's callback once the image has arrived).\<close>

record waterOptions =
  resolutionScale :: real
  sunDirection :: vec3
  sunColor :: nat
  waterColor :: string
  distortionScale :: real
  waterNormals :: string

record waterMesh =
  geometry :: planeGeometry
  options :: waterOptions
  materialSide :: side
  meshPosition :: vec3
  meshRotation :: vec3

text \<open>A new mesh sits at the origin, unrotated, with a front-sided material.\<close>

definition WaterMesh :: "planeGeometry \<Rightarrow> waterOptions \<Rightarrow> waterMesh" where
  "WaterMesh geo opts =
     \<lparr>geometry = geo, options = opts, materialSide = FrontSide,
      meshPosition = (0, 0, 0), meshRotation = (0, 0, 0)\<rparr>"

text \<open>The body of the effect of \<^verbatim>\<open>ObjectWater\<close>, statement by statement;
  \<^verbatim>\<open>0xffffff\<close> is 16777215.\<close>

definition buildWater :: waterMesh where
  "buildWater =
     (let geo = PlaneGeometry 10000 10000;
          geo = rotateX (pi * - 0.5) geo;
          water = WaterMesh geo
            \<lparr>resolutionScale = 0.5,
             sunDirection = (0, 1, 0),
             sunColor = 16777215,
             waterColor = ''#6fb8ac'',
             distortionScale = 5,
             waterNormals = ''/textures/waternormals.jpg''\<rparr>;
          water = water\<lparr>materialSide := DoubleSide\<rparr>;
          water = water\<lparr>meshPosition := (case meshPosition water of (x, y, z) \<Rightarrow> (x, - 5, z))\<rparr>
      in water\<lparr>meshRotation := (case meshRotation water of (x, y, z) \<Rightarrow> (pi * 0, y, z))\<rparr>)"

text \<open>
  The component: \<open>display\<close> is \<^verbatim>\<open>api.display\<close> (absent in the initial \<^verbatim>\<open>{}\<close>),
  \<open>built\<close> lists the meshes constructed so far, \<open>effectDeps\<close> is the dependency array
  of the last render. The effect's dependency array is \<^verbatim>\<open>[]\<close>.
\<close>

record objectWater =
  display :: "waterMesh option"
  built :: "waterMesh list"
  effectDeps :: "unit list option"

definition ObjectWater_initial :: objectWater where
  "ObjectWater_initial = \<lparr>display = None, built = [], effectDeps = None\<rparr>"

definition ObjectWater_render :: "objectWater \<Rightarrow> objectWater" where
  "ObjectWater_render c =
     (if effectDue (effectDeps c) []
      then c\<lparr>display := Some buildWater, built := built c @ [buildWater], effectDeps := Some []\<rparr>
      else c\<lparr>effectDeps := Some []\<rparr>)"

section \<open>The camera rig (CamRig) and the build configuration\<close>

type_synonym quat = "real \<times> real \<times> real \<times> real"

text \<open>
  The camera fields the effect writes. \<open>projection\<close> holds the \<open>(fov, near, far)\<close> that
  the last \<^verbatim>\<open>updateProjectionMatrix()\<close> read, \<open>None\<close> before any call.
\<close>

record camera =
  position :: vec3
  quaternion :: quat
  scale :: vec3
  fov :: real
  far :: real
  near :: real
  projection :: "(real \<times> real \<times> real) option"

definition updateProjectionMatrix :: "camera \<Rightarrow> camera" where
  "updateProjectionMatrix cam = cam\<lparr>projection := Some (fov cam, near cam, far cam)\<rparr>"

text \<open>The sixteen numbers given to \<^verbatim>\<open>fromArray\<close>, in the source's order.\<close>

definition m4 :: "real list" where
  "m4 =
     [0.9840423933287578, 1.0408340855860843 / 10 ^ 17, 0.1779341679717821, 0,
      0.05954104347474225, 0.9423517267593705, - 0.3292842043213908, 0,
      - 0.16767657043770076, 0.33462400253662705, 0.9273140485577785, 0,
      - 136.6004999600759, 272.606995275635, 755.4517743435046, 1]"

text \<open>
  The effect of \<^verbatim>\<open>CamRig\<close>. The engine's \<^verbatim>\<open>Matrix4.decompose\<close> is a parameter: it
  yields the position, the quaternion and the scale it writes into its three arguments.
  A missing camera ends the effect at once.
\<close>

definition CamRig_effect ::
    "(real list \<Rightarrow> vec3 \<times> quat \<times> vec3) \<Rightarrow> camera option \<Rightarrow> camera option" where
  "CamRig_effect decompose camera =
     (case camera of
        None \<Rightarrow> None
      | Some cam \<Rightarrow>
          (case decompose m4 of (p, q, s) \<Rightarrow>
             (let cam = cam\<lparr>position := p, quaternion := q, scale := s\<rparr>;
                  cam = cam\<lparr>fov := 50\<rparr>;
                  cam = cam\<lparr>far := 15000\<rparr>;
                  cam = cam\<lparr>near := 5\<rparr>
              in Some (updateProjectionMatrix cam))))"

text \<open>
  The object given to \<^verbatim>\<open>defineConfig\<close>. \<^verbatim>\<open>fronthost\<close> is imported from a settings
  module and is a parameter; the two plugins are the values of \<^verbatim>\<open>react()\<close> and
  \<^verbatim>\<open>tailwindcss()\<close>.
\<close>

datatype plugin = React_plugin | Tailwindcss_plugin

record serverConfig =
  host :: string
  port :: nat
  allowedHosts :: "string list"

record viteConfig =
  server :: serverConfig
  plugins :: "plugin list"

definition defineConfig :: "string \<Rightarrow> viteConfig" where
  "defineConfig fronthost =
     \<lparr>server = \<lparr>host = ''0.0.0.0'', port = 5173, allowedHosts = [fronthost]\<rparr>,
      plugins = [React_plugin, Tailwindcss_plugin]\<rparr>"

section \<open>Properties of the avatar controller\<close>

subsection \<open>Properties of the status map\<close>

lemma mapAt_simps:
  "mapAt ''IDLE'' = Some ''IDLE''"
  "mapAt ''WALK'' = Some ''WALK''"
  "mapAt ''RUN'' = Some ''JOG''"
  "mapAt ''JUMP_START'' = Some ''JUMP_START''"
  "mapAt ''JUMP_IDLE'' = Some ''JUMP_LOOP''"
  "mapAt ''JUMP_FALL'' = Some ''JUMP_LOOP''"
  "mapAt ''JUMP_LAND'' = Some ''JUMP_LAND''"
  by (simp_all add: mapAt_def statusToActionMap_def)

text \<open>
  C1. Every status of the enum is a key of \<open>statusToActionMap\<close>: the lookup yields a clip
  name for each of the seven values, namely IDLE, WALK, JOG, JUMP_START, JUMP_LOOP,
  JUMP_LOOP and JUMP_LAND, so the map is not injective (JUMP_IDLE and JUMP_FALL share
  JUMP_LOOP).
\<close>

theorem statusToActionMap_total:
  "(\<forall>s. \<exists>clip. mapAt (status_key s) = Some clip)
   \<and> mapAt (status_key IDLE) = Some ''IDLE''
   \<and> mapAt (status_key WALK) = Some ''WALK''
   \<and> mapAt (status_key RUN) = Some ''JOG''
   \<and> mapAt (status_key JUMP_START) = Some ''JUMP_START''
   \<and> mapAt (status_key JUMP_IDLE) = Some ''JUMP_LOOP''
   \<and> mapAt (status_key JUMP_FALL) = Some ''JUMP_LOOP''
   \<and> mapAt (status_key JUMP_LAND) = Some ''JUMP_LAND''
   \<and> \<not> inj (\<lambda>s. mapAt (status_key s))"
proof -
  have total: "\<exists>clip. mapAt (status_key s) = Some clip" for s
    by (cases s) (simp_all add: mapAt_simps)
  have shared: "mapAt (status_key JUMP_IDLE) = mapAt (status_key JUMP_FALL)"
    by (simp add: mapAt_simps)
  have "\<not> inj (\<lambda>s. mapAt (status_key s))"
  proof
    assume "inj (\<lambda>s. mapAt (status_key s))"
    from injD [OF this shared] show False by simp
  qed
  with total show ?thesis
    by (simp add: mapAt_simps)
qed

lemma mapAt_total: "\<exists>n. mapAt (status_key s) = Some n"
  by (cases s) (simp_all add: mapAt_simps)

lemma oneShot_iff:
  "(Some n = mapAt ''JUMP_START'' \<or> Some n = mapAt ''JUMP_LAND'')
     = (n = ''JUMP_START'' \<or> n = ''JUMP_LAND'')"
  by (auto simp: mapAt_simps)

subsection \<open>What each operation does to each field\<close>

lemma setTimeScale_fields [simp]:
  "canPlayNext (setTimeScale n v st) = canPlayNext st"
  "prevActionNameRef (setTimeScale n v st) = prevActionNameRef st"
  "calls (setTimeScale n v st) = calls st"
  "actions (setTimeScale n v st) m =
     (if m = n then map_option (\<lambda>a. a\<lparr>timeScale := v\<rparr>) (actions st n) else actions st m)"
  by (simp_all add: setTimeScale_def)

lemma setClampWhenFinished_fields [simp]:
  "canPlayNext (setClampWhenFinished n b st) = canPlayNext st"
  "prevActionNameRef (setClampWhenFinished n b st) = prevActionNameRef st"
  "calls (setClampWhenFinished n b st) = calls st"
  "actions (setClampWhenFinished n b st) m =
     (if m = n then map_option (\<lambda>a. a\<lparr>clampWhenFinished := b\<rparr>) (actions st n)
      else actions st m)"
  by (simp_all add: setClampWhenFinished_def)

lemma issue_fields [simp]:
  "canPlayNext (issue cs st) = canPlayNext st"
  "prevActionNameRef (issue cs st) = prevActionNameRef st"
  "calls (issue cs st) = calls st @ cs"
  "actions (issue cs st) = actions st"
  by (simp_all add: issue_def)

lemma mount_fields:
  "canPlayNext (mount acts)"
  "prevActionNameRef (mount acts) = ''IDLE''"
  "actions (mount acts) = acts"
  "calls (mount acts) = (if acts ''IDLE'' \<noteq> None then [Play ''IDLE''] else [])"
  by (simp_all add: mount_def Let_def)

lemma timeScaleOverrides_fields [simp]:
  "canPlayNext (timeScaleOverrides s n st) = canPlayNext st"
  "prevActionNameRef (timeScaleOverrides s n st) = prevActionNameRef st"
  "calls (timeScaleOverrides s n st) = calls st"
  by (simp_all add: timeScaleOverrides_def Let_def)

lemma timeScaleOverrides_other:
  "m \<noteq> n \<Longrightarrow> actions (timeScaleOverrides s n st) m = actions st m"
  by (simp add: timeScaleOverrides_def Let_def)

lemma timeScaleOverrides_clamp:
  "map_option clampWhenFinished (actions (timeScaleOverrides s n st) m)
     = map_option clampWhenFinished (actions st m)"
  by (cases s; cases "actions st n") (simp_all add: timeScaleOverrides_def Let_def)

lemma timeScaleOverrides_timeScale:
  "map_option timeScale (actions (timeScaleOverrides s n st) n) =
     map_option (\<lambda>a. case s of IDLE \<Rightarrow> timeScale a | WALK \<Rightarrow> 0.45 | RUN \<Rightarrow> 0.45
        | JUMP_START \<Rightarrow> 1 | JUMP_IDLE \<Rightarrow> 0 | JUMP_FALL \<Rightarrow> 0 | JUMP_LAND \<Rightarrow> 0.88)
       (actions st n)"
  by (cases s; cases "actions st n") (simp_all add: timeScaleOverrides_def Let_def)

lemma timeScaleOverrides_dom: "dom (actions (timeScaleOverrides s n st)) = dom (actions st)"
  by (cases s) (auto simp: timeScaleOverrides_def Let_def setTimeScale_def dom_def)

lemma reopenOnStatus_fields [simp]:
  "prevActionNameRef (reopenOnStatus c p s st) = prevActionNameRef st"
  "calls (reopenOnStatus c p s st) = calls st"
  "actions (reopenOnStatus c p s st) = actions st"
  by (simp_all add: reopenOnStatus_def Let_def)

lemma reopenOnStatus_gate:
  "canPlayNext (reopenOnStatus c p s st) =
     (canPlayNext st \<or> (\<not> c \<and> (p = ''JUMP_START'' \<and> s \<noteq> JUMP_IDLE \<and> s \<noteq> JUMP_START
                               \<or> p = ''JUMP_LAND'' \<and> s \<noteq> IDLE \<and> s \<noteq> JUMP_LAND)))"
  by (cases s) (auto simp: reopenOnStatus_def Let_def mapAt_simps)

subsection \<open>The transition branch\<close>

lemma playNext_oneShot:
  assumes "n = ''JUMP_START'' \<or> n = ''JUMP_LAND''" and "actions st p \<noteq> None"
  shows "playNext n p st =
     Inr ((setClampWhenFinished n True
            (issue [CrossFadeFrom n p 0.1, SetLoop n LoopOnce 1, Play n]
              (issue [Reset n] (setTimeScale n 0.5 (st\<lparr>canPlayNext := False\<rparr>)))))
          \<lparr>prevActionNameRef := n\<rparr>)"
  using assms by (auto simp: playNext_def Let_def mapAt_simps)

lemma playNext_looping:
  assumes "\<not> (n = ''JUMP_START'' \<or> n = ''JUMP_LAND'')" and "actions st p \<noteq> None"
  shows "playNext n p st =
     Inr ((issue [CrossFadeFrom n p 0.2, Play n]
            (issue [Reset n] (setTimeScale n 1 (st\<lparr>canPlayNext := True\<rparr>))))
          \<lparr>prevActionNameRef := n\<rparr>)"
  using assms by (auto simp: playNext_def Let_def mapAt_simps)

lemma playNext_Inr:
  assumes "playNext n p st = Inr st'"
  shows "prevActionNameRef st' = n"
    and "canPlayNext st' = (\<not> (n = ''JUMP_START'' \<or> n = ''JUMP_LAND''))"
    and "dom (actions st') = dom (actions st)"
    and "\<exists>cs. calls st' = calls st @ cs"
  using assms
  by (auto simp: playNext_def Let_def mapAt_simps dom_def split: if_splits)

lemma playNext_timeScale:
  assumes "playNext n p st = Inr st1" and "actions st n = Some a"
  shows "map_option timeScale (actions st1 n)
           = Some (if n = ''JUMP_START'' \<or> n = ''JUMP_LAND'' then 0.5 else 1)"
  using assms by (auto simp: playNext_def Let_def mapAt_simps split: if_splits)

subsection \<open>The shapes a run of the status effect can take\<close>

lemma statusEffect_missing:
  "mapAt (status_key s) = Some n \<Longrightarrow> actions st n = None \<Longrightarrow> statusEffect s st = Inr st"
  by (simp add: statusEffect_def)

lemma statusEffect_closed:
  "\<not> canPlayNext st \<Longrightarrow> mapAt (status_key s) = Some n \<Longrightarrow> actions st n = Some a \<Longrightarrow>
   statusEffect s st =
     Inr (timeScaleOverrides s n (reopenOnStatus False (prevActionNameRef st) s st))"
  by (simp add: statusEffect_def)

lemma statusEffect_open:
  assumes "mapAt (status_key s) = Some n" and "actions st n = Some a"
    and "canPlayNext st" and "n \<noteq> prevActionNameRef st"
    and "playNext n (prevActionNameRef st) st = Inr st1"
  shows "statusEffect s st =
     Inr (timeScaleOverrides s n (reopenOnStatus True (prevActionNameRef st) s st1))"
  using assms by (simp add: statusEffect_def Let_def)

lemma statusEffect_cases [consumes 1, case_names noop stay play]:
  assumes "statusEffect s st = Inr st'"
  obtains
    (noop) n where "mapAt (status_key s) = Some n" and "actions st n = None" and "st' = st"
  | (stay) n a where "mapAt (status_key s) = Some n" and "actions st n = Some a"
      and "n = prevActionNameRef st \<or> \<not> canPlayNext st"
      and "st' = timeScaleOverrides s n
                  (reopenOnStatus (canPlayNext st) (prevActionNameRef st) s st)"
  | (play) n a st1 where "mapAt (status_key s) = Some n" and "actions st n = Some a"
      and "n \<noteq> prevActionNameRef st" and "canPlayNext st"
      and "playNext n (prevActionNameRef st) st = Inr st1"
      and "st' = timeScaleOverrides s n (reopenOnStatus True (prevActionNameRef st) s st1)"
proof -
  obtain n where n: "mapAt (status_key s) = Some n"
    using mapAt_total by blast
  show thesis
  proof (cases "actions st n")
    case None
    with n assms have "st' = st" by (simp add: statusEffect_def)
    with n None show thesis by (rule noop)
  next
    case (Some a)
    show thesis
    proof (cases "n \<noteq> prevActionNameRef st \<and> canPlayNext st")
      case False
      with n Some assms
      have "st' = timeScaleOverrides s n
                    (reopenOnStatus (canPlayNext st) (prevActionNameRef st) s st)"
        by (auto simp: statusEffect_def Let_def)
      with n Some False show thesis by (intro stay [of n a]) auto
    next
      case True
      with n Some assms obtain st1 where
        "playNext n (prevActionNameRef st) st = Inr st1"
        "st' = timeScaleOverrides s n (reopenOnStatus True (prevActionNameRef st) s st1)"
        by (auto simp: statusEffect_def Let_def split: sum.splits)
      with n Some True show thesis by (intro play [of n a st1]) auto
    qed
  qed
qed

subsection \<open>One event, and runs of events\<close>

lemma closed_step:
  assumes "\<not> canPlayNext st"
  shows "\<exists>st'. statusEffect s st = Inr st'
     \<and> prevActionNameRef st' = prevActionNameRef st
     \<and> canPlayNext st' =
         ((\<exists>n a. mapAt (status_key s) = Some n \<and> actions st n = Some a)
          \<and> (prevActionNameRef st = ''JUMP_START'' \<and> s \<noteq> JUMP_START \<and> s \<noteq> JUMP_IDLE
             \<or> prevActionNameRef st = ''JUMP_LAND'' \<and> s \<noteq> IDLE \<and> s \<noteq> JUMP_LAND))"
proof -
  obtain n where n: "mapAt (status_key s) = Some n"
    using mapAt_total by blast
  show ?thesis
  proof (cases "actions st n")
    case None
    with n have "statusEffect s st = Inr st" by (rule statusEffect_missing)
    with assms n None show ?thesis by simp
  next
    case (Some a)
    from assms n Some have "statusEffect s st =
        Inr (timeScaleOverrides s n (reopenOnStatus False (prevActionNameRef st) s st))"
      by (rule statusEffect_closed)
    with assms n Some show ?thesis
      by (auto simp: reopenOnStatus_gate)
  qed
qed

lemma closed_stays_closed:
  assumes "\<not> canPlayNext st"
    and "prevActionNameRef st = ''JUMP_START'' \<and> set ss \<subseteq> {JUMP_START, JUMP_IDLE}
         \<or> prevActionNameRef st = ''JUMP_LAND'' \<and> set ss \<subseteq> {IDLE, JUMP_LAND}"
  shows "\<exists>st'. run (map StatusUpdate ss) st = Inr st' \<and> \<not> canPlayNext st'
            \<and> prevActionNameRef st' = prevActionNameRef st"
  using assms
proof (induction ss arbitrary: st)
  case Nil
  then show ?case by simp
next
  case (Cons s ss)
  from closed_step [OF Cons.prems(1), of s] obtain st1 where
    st1: "statusEffect s st = Inr st1" "prevActionNameRef st1 = prevActionNameRef st"
      "canPlayNext st1 =
         ((\<exists>n a. mapAt (status_key s) = Some n \<and> actions st n = Some a)
          \<and> (prevActionNameRef st = ''JUMP_START'' \<and> s \<noteq> JUMP_START \<and> s \<noteq> JUMP_IDLE
             \<or> prevActionNameRef st = ''JUMP_LAND'' \<and> s \<noteq> IDLE \<and> s \<noteq> JUMP_LAND))"
    by blast
  from Cons.prems(2) st1(3) have closed: "\<not> canPlayNext st1" by auto
  from Cons.prems(2) st1(2)
  have "prevActionNameRef st1 = ''JUMP_START'' \<and> set ss \<subseteq> {JUMP_START, JUMP_IDLE}
         \<or> prevActionNameRef st1 = ''JUMP_LAND'' \<and> set ss \<subseteq> {IDLE, JUMP_LAND}"
    by auto
  from Cons.IH [OF closed this] st1(1,2) show ?case by simp
qed

text \<open>An event either keeps the previous name and does not close the gate, or it is a
  status update that moves to another clip through an open gate.\<close>

lemma step_gate:
  assumes "step ev st = Inr st'"
  shows "prevActionNameRef st' = prevActionNameRef st \<and> (canPlayNext st \<longrightarrow> canPlayNext st')
     \<or> canPlayNext st \<and> prevActionNameRef st' \<noteq> prevActionNameRef st
        \<and> (\<exists>s. ev = StatusUpdate s \<and> mapAt (status_key s) = Some (prevActionNameRef st'))
        \<and> canPlayNext st'
            = (\<not> (prevActionNameRef st' = ''JUMP_START'' \<or> prevActionNameRef st' = ''JUMP_LAND''))"
proof (cases ev)
  case (Finished clipName)
  with assms show ?thesis by (auto simp: onFinished_def)
next
  case (StatusUpdate s)
  with assms have "statusEffect s st = Inr st'" by simp
  then show ?thesis
  proof (cases rule: statusEffect_cases)
    case (noop n)
    then show ?thesis by simp
  next
    case (stay n a)
    then show ?thesis by (simp add: reopenOnStatus_gate)
  next
    case (play n a st1)
    from playNext_Inr(1,2) [OF play(5)] play StatusUpdate show ?thesis
      by (simp add: reopenOnStatus_gate)
  qed
qed

lemma step_calls:
  assumes "step ev st = Inr st'"
  shows "\<exists>cs. calls st' = calls st @ cs"
proof (cases ev)
  case (Finished clipName)
  with assms show ?thesis by (auto simp: onFinished_def)
next
  case (StatusUpdate s)
  with assms have "statusEffect s st = Inr st'" by simp
  then show ?thesis
  proof (cases rule: statusEffect_cases)
    case (play n a st1)
    from playNext_Inr(4) [OF play(5)] play show ?thesis by simp
  qed simp_all
qed

lemma run_calls:
  "run evs st = Inr st' \<Longrightarrow> \<exists>cs. calls st' = calls st @ cs"
proof (induction evs arbitrary: st)
  case Nil
  then show ?case by simp
next
  case (Cons ev evs)
  then obtain st1 where 1: "step ev st = Inr st1" and 2: "run evs st1 = Inr st'"
    by (auto split: sum.splits)
  from step_calls [OF 1] Cons.IH [OF 2] show ?case by auto
qed

lemma run_gate:
  assumes "run evs st = Inr st'"
    and "canPlayNext st \<or> prevActionNameRef st = ''JUMP_START''
         \<or> prevActionNameRef st = ''JUMP_LAND''"
  shows "canPlayNext st' \<or> prevActionNameRef st' = ''JUMP_START''
         \<or> prevActionNameRef st' = ''JUMP_LAND''"
  using assms
proof (induction evs arbitrary: st)
  case Nil
  then show ?case by simp
next
  case (Cons ev evs)
  then obtain st1 where 1: "step ev st = Inr st1" and 2: "run evs st1 = Inr st'"
    by (auto split: sum.splits)
  from step_gate [OF 1] Cons.prems(2)
  have "canPlayNext st1 \<or> prevActionNameRef st1 = ''JUMP_START''
        \<or> prevActionNameRef st1 = ''JUMP_LAND''"
    by auto
  with 2 show ?case by (rule Cons.IH)
qed

text \<open>
  When the previous action is in the table, no event throws, and the previous action
  is in the table afterwards too. A mount whose table has the IDLE clip starts so.
\<close>

lemma step_prev_present:
  assumes "actions st (prevActionNameRef st) \<noteq> None"
  shows "\<exists>st'. step ev st = Inr st' \<and> actions st' (prevActionNameRef st') \<noteq> None"
proof (cases ev)
  case (Finished clipName)
  with assms show ?thesis by (simp add: onFinished_def)
next
  case (StatusUpdate s)
  obtain n where n: "mapAt (status_key s) = Some n"
    using mapAt_total by blast
  show ?thesis
  proof (cases "actions st n")
    case None
    with n have "statusEffect s st = Inr st" by (rule statusEffect_missing)
    with assms StatusUpdate show ?thesis by simp
  next
    case (Some a)
    show ?thesis
    proof (cases "n \<noteq> prevActionNameRef st \<and> canPlayNext st")
      case True
      from assms obtain st1 where st1: "playNext n (prevActionNameRef st) st = Inr st1"
        by (cases "n = ''JUMP_START'' \<or> n = ''JUMP_LAND''")
          (simp_all add: playNext_oneShot playNext_looping)
      define st' where
        "st' = timeScaleOverrides s n (reopenOnStatus True (prevActionNameRef st) s st1)"
      from n Some True st1 have run: "statusEffect s st = Inr st'"
        unfolding st'_def by (simp add: statusEffect_open)
      have "dom (actions st') = dom (actions st)"
        using playNext_Inr(3) [OF st1] by (simp add: st'_def timeScaleOverrides_dom)
      moreover have "prevActionNameRef st' = n"
        using playNext_Inr(1) [OF st1] by (simp add: st'_def)
      moreover from Some have "n \<in> dom (actions st)" by auto
      ultimately have "actions st' (prevActionNameRef st') \<noteq> None" by auto
      with run StatusUpdate show ?thesis by simp
    next
      case False
      define st' where "st' = timeScaleOverrides s n
          (reopenOnStatus (canPlayNext st) (prevActionNameRef st) s st)"
      from n Some False have run: "statusEffect s st = Inr st'"
        unfolding st'_def by (auto simp: statusEffect_def Let_def)
      have "dom (actions st') = dom (actions st)"
        by (simp add: st'_def timeScaleOverrides_dom)
      moreover have "prevActionNameRef st' = prevActionNameRef st"
        by (simp add: st'_def)
      moreover from assms have "prevActionNameRef st \<in> dom (actions st)" by auto
      ultimately have "actions st' (prevActionNameRef st') \<noteq> None" by auto
      with run StatusUpdate show ?thesis by simp
    qed
  qed
qed

lemma run_prev_present:
  assumes "actions st (prevActionNameRef st) \<noteq> None"
  shows "\<exists>st'. run evs st = Inr st' \<and> actions st' (prevActionNameRef st') \<noteq> None"
  using assms
proof (induction evs arbitrary: st)
  case Nil
  then show ?case by simp
next
  case (Cons ev evs)
  from step_prev_present [OF Cons.prems, of ev] obtain st1 where
    1: "step ev st = Inr st1" and 2: "actions st1 (prevActionNameRef st1) \<noteq> None"
    by blast
  from Cons.IH [OF 2] 1 show ?case by simp
qed

lemma run_from_mount_total:
  "acts ''IDLE'' \<noteq> None \<Longrightarrow>
   \<exists>st. run evs (mount acts) = Inr st \<and> actions st (prevActionNameRef st) \<noteq> None"
  by (rule run_prev_present) (simp add: mount_fields)

subsection \<open>The loaded avatar in mid-jump\<close>

lemma jumping_reachable: "run [StatusUpdate JUMP_START] (mount allClips) = Inr jumping"
  by (simp add: statusEffect_def mapAt_simps mount_def Let_def allClips_def
      playNext_def timeScaleOverrides_def reopenOnStatus_def jumping_def issue_def
      setTimeScale_def setClampWhenFinished_def clip0_def)

lemma jumping_step: "statusEffect JUMP_START (mount allClips) = Inr jumping"
  using jumping_reachable by (simp split: sum.splits)

lemma jumping_fields:
  "\<not> canPlayNext jumping" "prevActionNameRef jumping = ''JUMP_START''"
  "actions jumping ''JUMP_LOOP'' = Some clip0"
  by (simp_all add: jumping_def allClips_def)

subsection \<open>The claims about the controller\<close>

text \<open>
  The six assignments that end the effect run with the gate closed too: after
  JUMP_START, the status JUMP_IDLE sets the time scale of the JUMP_LOOP action from 1
  to 0, and changes nothing else.
\<close>

lemma closed_gate_sets_timeScale:
  "\<not> canPlayNext jumping
   \<and> statusEffect JUMP_IDLE jumping = Inr (setTimeScale ''JUMP_LOOP'' 0 jumping)
   \<and> map_option timeScale (actions jumping ''JUMP_LOOP'') = Some 1
   \<and> map_option timeScale (actions (setTimeScale ''JUMP_LOOP'' 0 jumping) ''JUMP_LOOP'')
       = Some 0"
proof -
  note c = jumping_fields(1) and p = jumping_fields(2) and a = jumping_fields(3)
  have "statusEffect JUMP_IDLE jumping
      = Inr (timeScaleOverrides JUMP_IDLE ''JUMP_LOOP''
              (reopenOnStatus False (prevActionNameRef jumping) JUMP_IDLE jumping))"
    using c _ a by (rule statusEffect_closed) (simp add: mapAt_simps)
  also have "reopenOnStatus False (prevActionNameRef jumping) JUMP_IDLE jumping = jumping"
    by (simp add: reopenOnStatus_def mapAt_simps p)
  also have "timeScaleOverrides JUMP_IDLE ''JUMP_LOOP'' jumping
               = setTimeScale ''JUMP_LOOP'' 0 jumping"
    by (simp add: timeScaleOverrides_def)
  finally show ?thesis using c a by (simp add: clip0_def)
qed

text \<open>
  C2. The gate blocks new transitions while closed. A status update processed while
  \<open>canPlayNext\<close> is false never throws and issues no call on the mixer: no crossfade is
  started, no clip is reset or played. \<open>prevActionNameRef.current\<close> is unchanged, so of
  the controller's own state, the previous name and the gate, only the gate can change,
  and being closed it can only reopen. Beyond the claim: every action other than the
  mapped one is untouched and every \<open>clampWhenFinished\<close> is as it was.
\<close>

theorem closed_gate_frame:
  assumes "\<not> canPlayNext st"
  shows "\<exists>st'. statusEffect s st = Inr st'
     \<and> calls st' = calls st
     \<and> prevActionNameRef st' = prevActionNameRef st
     \<and> (\<forall>m. mapAt (status_key s) \<noteq> Some m \<longrightarrow> actions st' m = actions st m)
     \<and> (\<forall>m. map_option clampWhenFinished (actions st' m)
              = map_option clampWhenFinished (actions st m))"
proof -
  obtain n where n: "mapAt (status_key s) = Some n"
    using mapAt_total by blast
  show ?thesis
  proof (cases "actions st n")
    case None
    with n have "statusEffect s st = Inr st" by (rule statusEffect_missing)
    then show ?thesis by simp
  next
    case (Some a)
    define st' where
      "st' = timeScaleOverrides s n (reopenOnStatus False (prevActionNameRef st) s st)"
    from assms n Some have run: "statusEffect s st = Inr st'"
      unfolding st'_def by (rule statusEffect_closed)
    have "calls st' = calls st" and "prevActionNameRef st' = prevActionNameRef st"
      by (simp_all add: st'_def)
    moreover have "actions st' m = actions st m" if "mapAt (status_key s) \<noteq> Some m" for m
    proof -
      from that n have "m \<noteq> n" by auto
      then show ?thesis by (simp add: st'_def timeScaleOverrides_other)
    qed
    moreover have "map_option clampWhenFinished (actions st' m)
                     = map_option clampWhenFinished (actions st m)" for m
      by (simp only: st'_def timeScaleOverrides_clamp reopenOnStatus_fields)
    ultimately show ?thesis using run by blast
  qed
qed

theorem closed_gate_frame_witness:
  "\<not> canPlayNext jumping
   \<and> (\<exists>st'. statusEffect RUN jumping = Inr st'
     \<and> calls st' = calls jumping
     \<and> prevActionNameRef st' = prevActionNameRef jumping
     \<and> (\<forall>m. mapAt (status_key RUN) \<noteq> Some m \<longrightarrow> actions st' m = actions jumping m)
     \<and> (\<forall>m. map_option clampWhenFinished (actions st' m)
              = map_option clampWhenFinished (actions jumping m)))"
proof -
  note c = jumping_fields(1)
  from c closed_gate_frame [OF c, of RUN] show ?thesis by (rule conjI)
qed

lemma mount_walkOnly_throws: "statusEffect WALK (mount walkOnly) = Inl TypeError"
  by (simp add: statusEffect_def mapAt_simps mount_def Let_def walkOnly_def playNext_def
      issue_def setTimeScale_def)

text \<open>
  C3, as stated, fails. On a mount whose table has the WALK clip but no IDLE clip, the
  status WALK finds its action, the gate is open and WALK differs from the previous
  name "IDLE"; the update resets the action and then hands \<^verbatim>\<open>actions["IDLE"]\<close>, which
  is \<^verbatim>\<open>undefined\<close>, to \<^verbatim>\<open>crossFadeFrom\<close>: it throws, and
  \<open>prevActionNameRef.current\<close> is not updated.
\<close>

theorem open_gate_transition_counterexample:
  "mapAt (status_key WALK) = Some ''WALK''
   \<and> actions (mount walkOnly) ''WALK'' = Some clip0
   \<and> canPlayNext (mount walkOnly)
   \<and> ''WALK'' \<noteq> prevActionNameRef (mount walkOnly)
   \<and> actions (mount walkOnly) (prevActionNameRef (mount walkOnly)) = None
   \<and> statusEffect WALK (mount walkOnly) = Inl TypeError"
  using mount_walkOnly_throws by (simp add: mapAt_simps mount_fields walkOnly_def)

text \<open>
  C3, amended: the claim holds when the previous action is in the actions table. Let
  the mapped action exist, the gate be open and the mapped name differ from the
  previous one, the previous action being in the table. If the next action is
  JUMP_START or JUMP_LAND, the update closes the gate, resets the action, crossfades
  from the previous action over 0.1, sets the loop to \<open>LoopOnce\<close> with 1 repetition,
  plays it and sets \<open>clampWhenFinished\<close>. Otherwise the gate stays open, the action is
  reset, crossfaded over 0.2 and played, with no loop call and \<open>clampWhenFinished\<close> as it
  was. In both cases \<open>prevActionNameRef.current\<close> becomes the next name.
\<close>

theorem open_gate_transition:
  assumes "mapAt (status_key s) = Some n" and "actions st n = Some a"
    and "canPlayNext st" and "n \<noteq> prevActionNameRef st"
    and "actions st (prevActionNameRef st) \<noteq> None"
  shows "\<exists>st'. statusEffect s st = Inr st' \<and> prevActionNameRef st' = n \<and>
     (if n = ''JUMP_START'' \<or> n = ''JUMP_LAND''
      then \<not> canPlayNext st'
         \<and> calls st' = calls st @ [Reset n, CrossFadeFrom n (prevActionNameRef st) 0.1,
                                   SetLoop n LoopOnce 1, Play n]
         \<and> map_option clampWhenFinished (actions st' n) = Some True
      else canPlayNext st'
         \<and> calls st' = calls st @ [Reset n, CrossFadeFrom n (prevActionNameRef st) 0.2, Play n]
         \<and> map_option clampWhenFinished (actions st' n) = Some (clampWhenFinished a))"
proof (cases "n = ''JUMP_START'' \<or> n = ''JUMP_LAND''")
  case True
  define p where "p = prevActionNameRef st"
  define st1 where "st1 = (setClampWhenFinished n True
            (issue [CrossFadeFrom n p 0.1, SetLoop n LoopOnce 1, Play n]
              (issue [Reset n] (setTimeScale n 0.5 (st\<lparr>canPlayNext := False\<rparr>)))))
          \<lparr>prevActionNameRef := n\<rparr>"
  define st' where "st' = timeScaleOverrides s n (reopenOnStatus True p s st1)"
  have "playNext n p st = Inr st1"
    unfolding st1_def p_def using True assms(5) by (rule playNext_oneShot)
  then have run: "statusEffect s st = Inr st'"
    unfolding st'_def p_def using assms(1-4) by (simp add: statusEffect_open)
  have prev: "prevActionNameRef st' = n"
    by (simp add: st'_def st1_def)
  have gate: "\<not> canPlayNext st'"
    by (simp add: st'_def st1_def reopenOnStatus_gate)
  have trace: "calls st' = calls st @ [Reset n, CrossFadeFrom n p 0.1, SetLoop n LoopOnce 1, Play n]"
    by (simp add: st'_def st1_def)
  have "map_option clampWhenFinished (actions st' n)
          = map_option clampWhenFinished (actions st1 n)"
    by (simp only: st'_def timeScaleOverrides_clamp reopenOnStatus_fields)
  also have "\<dots> = Some True"
    using assms(2) by (simp add: st1_def)
  finally have clamp: "map_option clampWhenFinished (actions st' n) = Some True" .
  from run prev gate trace clamp True show ?thesis
    unfolding p_def by (intro exI [of _ st']) simp
next
  case False
  define p where "p = prevActionNameRef st"
  define st1 where "st1 = (issue [CrossFadeFrom n p 0.2, Play n]
            (issue [Reset n] (setTimeScale n 1 (st\<lparr>canPlayNext := True\<rparr>))))
          \<lparr>prevActionNameRef := n\<rparr>"
  define st' where "st' = timeScaleOverrides s n (reopenOnStatus True p s st1)"
  have "playNext n p st = Inr st1"
    unfolding st1_def p_def using False assms(5) by (rule playNext_looping)
  then have run: "statusEffect s st = Inr st'"
    unfolding st'_def p_def using assms(1-4) by (simp add: statusEffect_open)
  have prev: "prevActionNameRef st' = n"
    by (simp add: st'_def st1_def)
  have gate: "canPlayNext st'"
    by (simp add: st'_def st1_def reopenOnStatus_gate)
  have trace: "calls st' = calls st @ [Reset n, CrossFadeFrom n p 0.2, Play n]"
    by (simp add: st'_def st1_def)
  have "map_option clampWhenFinished (actions st' n)
          = map_option clampWhenFinished (actions st1 n)"
    by (simp only: st'_def timeScaleOverrides_clamp reopenOnStatus_fields)
  also have "\<dots> = Some (clampWhenFinished a)"
    using assms(2) by (simp add: st1_def)
  finally have clamp:
    "map_option clampWhenFinished (actions st' n) = Some (clampWhenFinished a)" .
  from run prev gate trace clamp False show ?thesis
    unfolding p_def by (intro exI [of _ st']) simp
qed

theorem open_gate_transition_witness:
  "mapAt (status_key JUMP_START) = Some ''JUMP_START''
   \<and> actions (mount allClips) ''JUMP_START'' = Some clip0
   \<and> canPlayNext (mount allClips)
   \<and> ''JUMP_START'' \<noteq> prevActionNameRef (mount allClips)
   \<and> actions (mount allClips) (prevActionNameRef (mount allClips)) \<noteq> None
   \<and> (\<exists>st'. statusEffect JUMP_START (mount allClips) = Inr st'
         \<and> prevActionNameRef st' = ''JUMP_START'' \<and> \<not> canPlayNext st'
         \<and> calls st' = [Play ''IDLE'', Reset ''JUMP_START'',
                         CrossFadeFrom ''JUMP_START'' ''IDLE'' 0.1,
                         SetLoop ''JUMP_START'' LoopOnce 1, Play ''JUMP_START'']
         \<and> map_option clampWhenFinished (actions st' ''JUMP_START'') = Some True)"
proof -
  have 1: "mapAt (status_key JUMP_START) = Some ''JUMP_START''" by (simp add: mapAt_simps)
  have 2: "actions (mount allClips) ''JUMP_START'' = Some clip0"
    by (simp add: mount_fields allClips_def)
  have 3: "canPlayNext (mount allClips)" by (simp add: mount_fields)
  have 4: "''JUMP_START'' \<noteq> prevActionNameRef (mount allClips)" by (simp add: mount_fields)
  have 5: "actions (mount allClips) (prevActionNameRef (mount allClips)) \<noteq> None"
    by (simp add: mount_fields allClips_def)
  from open_gate_transition [OF 1 2 3 4 5] 1 2 3 4 5 show ?thesis
    by (simp add: mount_fields allClips_def)
qed

text \<open>
  C4. With the gate closed, an event leaves it open exactly when it is a \<open>finished\<close>
  event of the JUMP_START or JUMP_LAND clip, or a status update whose mapped action
  exists and for which either the previous action is JUMP_START and the status is
  neither JUMP_START nor JUMP_IDLE, or the previous action is JUMP_LAND and the status
  is neither IDLE nor JUMP_LAND. And while the previous action is JUMP_START and the
  statuses stay in {JUMP_START, JUMP_IDLE} (or JUMP_LAND and {IDLE, JUMP_LAND}), any
  sequence of status updates without a \<open>finished\<close> event runs through and leaves the
  gate closed.
\<close>

theorem gate_reopening:
  "(\<forall>ev st st'. \<not> canPlayNext st \<longrightarrow> step ev st = Inr st' \<longrightarrow>
      canPlayNext st' =
        (case ev of
           Finished clipName \<Rightarrow> clipName = ''JUMP_START'' \<or> clipName = ''JUMP_LAND''
         | StatusUpdate s \<Rightarrow>
             (\<exists>n a. mapAt (status_key s) = Some n \<and> actions st n = Some a)
             \<and> (prevActionNameRef st = ''JUMP_START'' \<and> s \<noteq> JUMP_START \<and> s \<noteq> JUMP_IDLE
                \<or> prevActionNameRef st = ''JUMP_LAND'' \<and> s \<noteq> IDLE \<and> s \<noteq> JUMP_LAND)))
   \<and> (\<forall>ss st. \<not> canPlayNext st \<longrightarrow>
        (prevActionNameRef st = ''JUMP_START'' \<and> set ss \<subseteq> {JUMP_START, JUMP_IDLE}
         \<or> prevActionNameRef st = ''JUMP_LAND'' \<and> set ss \<subseteq> {IDLE, JUMP_LAND}) \<longrightarrow>
        (\<exists>st'. run (map StatusUpdate ss) st = Inr st' \<and> \<not> canPlayNext st'
            \<and> prevActionNameRef st' = prevActionNameRef st))"
proof -
  have one: "canPlayNext st' =
        (case ev of
           Finished clipName \<Rightarrow> clipName = ''JUMP_START'' \<or> clipName = ''JUMP_LAND''
         | StatusUpdate s \<Rightarrow>
             (\<exists>n a. mapAt (status_key s) = Some n \<and> actions st n = Some a)
             \<and> (prevActionNameRef st = ''JUMP_START'' \<and> s \<noteq> JUMP_START \<and> s \<noteq> JUMP_IDLE
                \<or> prevActionNameRef st = ''JUMP_LAND'' \<and> s \<noteq> IDLE \<and> s \<noteq> JUMP_LAND))"
    if closed: "\<not> canPlayNext st" and st': "step ev st = Inr st'" for ev st st'
  proof (cases ev)
    case (StatusUpdate s)
    from closed_step [OF closed, of s] st' StatusUpdate show ?thesis by auto
  next
    case (Finished clipName)
    with closed st' show ?thesis
      by (auto simp: onFinished_def oneShot_iff split: if_splits)
  qed
  from one closed_stays_closed show ?thesis by blast
qed

theorem gate_reopening_witness:
  "\<not> canPlayNext jumping
   \<and> step (Finished ''JUMP_START'') jumping = Inr (jumping\<lparr>canPlayNext := True\<rparr>)
   \<and> canPlayNext (jumping\<lparr>canPlayNext := True\<rparr>)
   \<and> prevActionNameRef jumping = ''JUMP_START''
   \<and> set [JUMP_IDLE, JUMP_START, JUMP_IDLE] \<subseteq> {JUMP_START, JUMP_IDLE}
   \<and> (\<exists>st'. run (map StatusUpdate [JUMP_IDLE, JUMP_START, JUMP_IDLE]) jumping = Inr st'
          \<and> \<not> canPlayNext st' \<and> prevActionNameRef st' = prevActionNameRef jumping)"
proof -
  note c = jumping_fields(1) and p = jumping_fields(2)
  have f: "step (Finished ''JUMP_START'') jumping = Inr (jumping\<lparr>canPlayNext := True\<rparr>)"
    using c by (simp add: onFinished_def mapAt_simps)
  have s: "set [JUMP_IDLE, JUMP_START, JUMP_IDLE] \<subseteq> {JUMP_START, JUMP_IDLE}" by simp
  from gate_reopening c f have "canPlayNext (jumping\<lparr>canPlayNext := True\<rparr>)"
    by simp
  moreover from gate_reopening c p s
  have "\<exists>st'. run (map StatusUpdate [JUMP_IDLE, JUMP_START, JUMP_IDLE]) jumping = Inr st'
          \<and> \<not> canPlayNext st' \<and> prevActionNameRef st' = prevActionNameRef jumping"
    by blast
  ultimately show ?thesis using c f p s by blast
qed

text \<open>
  C5. A status update whose mapped action name is not in the actions table returns
  normally with the controller exactly as it was: no call on the mixer, no time scale
  changed, \<open>prevActionNameRef.current\<close> and \<open>canPlayNext\<close> unchanged, no error.
\<close>

theorem missing_clip_is_noop:
  assumes "mapAt (status_key s) = Some n" and "actions st n = None"
  shows "statusEffect s st = Inr st"
  using assms by (simp add: statusEffect_def)

theorem missing_clip_is_noop_witness:
  "mapAt (status_key WALK) = Some ''WALK'' \<and> actions (mount idleOnly) ''WALK'' = None
   \<and> statusEffect WALK (mount idleOnly) = Inr (mount idleOnly)"
proof -
  have k: "mapAt (status_key WALK) = Some ''WALK''" by (simp add: mapAt_simps)
  have a: "actions (mount idleOnly) ''WALK'' = None"
    by (simp add: mount_fields idleOnly_def)
  from missing_clip_is_noop [OF k a] k a show ?thesis by simp
qed

text \<open>
  C6. In every state reached from a mount by status updates and \<open>finished\<close> events,
  \<open>canPlayNext\<close> is false only if \<open>prevActionNameRef.current\<close> is JUMP_START or
  JUMP_LAND. An event that closes an open gate is a status update that moves to
  JUMP_START or JUMP_LAND, and an event that moves to any other clip leaves the gate
  open.
\<close>

theorem gate_closed_only_in_one_shot:
  "(\<forall>acts evs st. run evs (mount acts) = Inr st \<longrightarrow> \<not> canPlayNext st \<longrightarrow>
       prevActionNameRef st = ''JUMP_START'' \<or> prevActionNameRef st = ''JUMP_LAND'')
   \<and> (\<forall>ev st st'. step ev st = Inr st' \<longrightarrow> canPlayNext st \<longrightarrow> \<not> canPlayNext st' \<longrightarrow>
        prevActionNameRef st' \<noteq> prevActionNameRef st
        \<and> (prevActionNameRef st' = ''JUMP_START'' \<or> prevActionNameRef st' = ''JUMP_LAND'')
        \<and> (\<exists>s. ev = StatusUpdate s \<and> mapAt (status_key s) = Some (prevActionNameRef st')))
   \<and> (\<forall>ev st st'. step ev st = Inr st' \<longrightarrow> prevActionNameRef st' \<noteq> prevActionNameRef st \<longrightarrow>
        prevActionNameRef st' \<noteq> ''JUMP_START'' \<longrightarrow> prevActionNameRef st' \<noteq> ''JUMP_LAND'' \<longrightarrow>
        canPlayNext st')"
proof -
  have inv: "prevActionNameRef st = ''JUMP_START'' \<or> prevActionNameRef st = ''JUMP_LAND''"
    if "run evs (mount acts) = Inr st" and "\<not> canPlayNext st" for acts evs st
    using run_gate [OF that(1)] that(2) by (simp add: mount_fields)
  have closes: "prevActionNameRef st' \<noteq> prevActionNameRef st
        \<and> (prevActionNameRef st' = ''JUMP_START'' \<or> prevActionNameRef st' = ''JUMP_LAND'')
        \<and> (\<exists>s. ev = StatusUpdate s \<and> mapAt (status_key s) = Some (prevActionNameRef st'))"
    if "step ev st = Inr st'" and "canPlayNext st" and "\<not> canPlayNext st'" for ev st st'
    using step_gate [OF that(1)] that(2,3) by auto
  have opens: "canPlayNext st'"
    if "step ev st = Inr st'" and "prevActionNameRef st' \<noteq> prevActionNameRef st"
      and "prevActionNameRef st' \<noteq> ''JUMP_START''" and "prevActionNameRef st' \<noteq> ''JUMP_LAND''"
    for ev st st'
    using step_gate [OF that(1)] that(2,3,4) by auto
  from inv closes opens show ?thesis by blast
qed

theorem gate_closed_only_in_one_shot_witness:
  "run [StatusUpdate JUMP_START] (mount allClips) = Inr jumping \<and> \<not> canPlayNext jumping
   \<and> (prevActionNameRef jumping = ''JUMP_START'' \<or> prevActionNameRef jumping = ''JUMP_LAND'')"
proof -
  note c = jumping_fields(1)
  from gate_closed_only_in_one_shot jumping_reachable c
  have "prevActionNameRef jumping = ''JUMP_START'' \<or> prevActionNameRef jumping = ''JUMP_LAND''"
    by blast
  with jumping_reachable c show ?thesis by blast
qed

text \<open>
  C7. On mount \<open>prevActionNameRef.current\<close> is "IDLE" and the gate is open; when the
  table has the IDLE clip, the mount issues exactly one call, \<open>Play IDLE\<close>, with no
  reset and no crossfade, and that call stays the first one in every later state.
\<close>

theorem mount_initial_state:
  "prevActionNameRef (mount acts) = ''IDLE''
   \<and> canPlayNext (mount acts)
   \<and> (acts ''IDLE'' \<noteq> None \<longrightarrow> calls (mount acts) = [Play ''IDLE''])
   \<and> (\<forall>evs st. acts ''IDLE'' \<noteq> None \<longrightarrow> run evs (mount acts) = Inr st \<longrightarrow>
         (\<exists>rest. calls st = Play ''IDLE'' # rest))"
proof -
  have "\<exists>rest. calls st = Play ''IDLE'' # rest"
    if "acts ''IDLE'' \<noteq> None" and "run evs (mount acts) = Inr st" for evs st
    using run_calls [OF that(2)] that(1) by (simp add: mount_fields)
  then show ?thesis by (simp add: mount_fields)
qed

theorem mount_initial_state_witness:
  "allClips ''IDLE'' \<noteq> None \<and> run [StatusUpdate JUMP_START] (mount allClips) = Inr jumping
   \<and> calls (mount allClips) = [Play ''IDLE'']
   \<and> (\<exists>rest. calls jumping = Play ''IDLE'' # rest)"
proof -
  have i: "allClips ''IDLE'' \<noteq> None" by (simp add: allClips_def)
  from mount_initial_state [of allClips] i jumping_reachable show ?thesis by blast
qed

text \<open>
  What the mapped action's time scale is after a status update that ran to its end.
\<close>

lemma timeScale_after_Inr:
  assumes "mapAt (status_key s) = Some n" and "actions st n = Some a"
    and "statusEffect s st = Inr st'"
  shows "map_option timeScale (actions st' n) =
     Some (case s of
             IDLE \<Rightarrow> (if n \<noteq> prevActionNameRef st \<and> canPlayNext st then 1 else timeScale a)
           | WALK \<Rightarrow> 0.45
           | RUN \<Rightarrow> 0.45
           | JUMP_START \<Rightarrow> 1
           | JUMP_IDLE \<Rightarrow> 0
           | JUMP_FALL \<Rightarrow> 0
           | JUMP_LAND \<Rightarrow> 0.88)
     \<and> (n \<noteq> prevActionNameRef st \<and> canPlayNext st \<longrightarrow>
          (\<exists>st1. playNext n (prevActionNameRef st) st = Inr st1
             \<and> map_option timeScale (actions st1 n)
                 = Some (if n = ''JUMP_START'' \<or> n = ''JUMP_LAND'' then 0.5 else 1)))"
  using assms(3)
proof (cases rule: statusEffect_cases)
  case (noop m)
  with assms(1,2) show ?thesis by simp
next
  case (stay m b)
  with assms(1,2) have mn: "m = n" by simp
  have "map_option timeScale (actions st' n) =
     map_option (\<lambda>a. case s of IDLE \<Rightarrow> timeScale a | WALK \<Rightarrow> 0.45 | RUN \<Rightarrow> 0.45
        | JUMP_START \<Rightarrow> 1 | JUMP_IDLE \<Rightarrow> 0 | JUMP_FALL \<Rightarrow> 0 | JUMP_LAND \<Rightarrow> 0.88)
       (actions (reopenOnStatus (canPlayNext st) (prevActionNameRef st) s st) n)"
    using stay(4) by (simp only: timeScaleOverrides_timeScale mn)
  with assms(2) stay(3) mn show ?thesis by (cases s) auto
next
  case (play m b st1)
  with assms(1,2) have mn: "m = n" by simp
  from playNext_timeScale [OF play(5)] assms(2) mn
  have ts1: "map_option timeScale (actions st1 n)
           = Some (if n = ''JUMP_START'' \<or> n = ''JUMP_LAND'' then 0.5 else 1)" by simp
  have "map_option timeScale (actions st' n) =
     map_option (\<lambda>a. case s of IDLE \<Rightarrow> timeScale a | WALK \<Rightarrow> 0.45 | RUN \<Rightarrow> 0.45
        | JUMP_START \<Rightarrow> 1 | JUMP_IDLE \<Rightarrow> 0 | JUMP_FALL \<Rightarrow> 0 | JUMP_LAND \<Rightarrow> 0.88)
       (actions st1 n)"
    using play(6) by (simp only: timeScaleOverrides_timeScale reopenOnStatus_fields mn)
  with ts1 assms(1) play(3,4) mn
  have "map_option timeScale (actions st' n) =
     Some (case s of
             IDLE \<Rightarrow> (if n \<noteq> prevActionNameRef st \<and> canPlayNext st then 1 else timeScale a)
           | WALK \<Rightarrow> 0.45 | RUN \<Rightarrow> 0.45 | JUMP_START \<Rightarrow> 1 | JUMP_IDLE \<Rightarrow> 0
           | JUMP_FALL \<Rightarrow> 0 | JUMP_LAND \<Rightarrow> 0.88)"
    by (cases s) (auto simp: mapAt_simps)
  moreover from play(5) ts1 mn
  have "\<exists>st1. playNext n (prevActionNameRef st) st = Inr st1
             \<and> map_option timeScale (actions st1 n)
                 = Some (if n = ''JUMP_START'' \<or> n = ''JUMP_LAND'' then 0.5 else 1)"
    by blast
  ultimately show ?thesis by blast
qed

text \<open>
  C8, as stated, fails. On the mount without an IDLE clip the WALK action exists, but
  the status WALK makes the effect throw at \<^verbatim>\<open>crossFadeFrom\<close>, before the six
  assignments: it does not end by setting the time scale to 0.45.
\<close>

theorem timeScale_after_update_counterexample:
  "mapAt (status_key WALK) = Some ''WALK''
   \<and> map_option timeScale (actions (mount walkOnly) ''WALK'') = Some 1
   \<and> statusEffect WALK (mount walkOnly) = Inl TypeError"
  using mount_walkOnly_throws
  by (simp add: mapAt_simps mount_fields walkOnly_def clip0_def)

text \<open>
  C8, amended: the claim holds for every update that attempts no transition from a
  previous action missing from the table. Let the mapped action exist and let the
  mapped name be the previous one, or the gate be closed, or the previous action be in
  the table. Then the update runs to its end, and afterwards the mapped action's time
  scale is 0.45 for WALK and for RUN, 1 for JUMP_START, 0.88 for JUMP_LAND and 0 for
  JUMP_IDLE and JUMP_FALL, whatever the transition assigned before (0.5 for a one-shot
  clip, 1 otherwise); for IDLE it is the 1 of the transition when there was one, and
  the old value otherwise.
\<close>

theorem timeScale_after_update:
  assumes "mapAt (status_key s) = Some n" and "actions st n = Some a"
    and "n = prevActionNameRef st \<or> \<not> canPlayNext st
         \<or> actions st (prevActionNameRef st) \<noteq> None"
  shows "\<exists>st'. statusEffect s st = Inr st' \<and>
     map_option timeScale (actions st' n) =
     Some (case s of
             IDLE \<Rightarrow> (if n \<noteq> prevActionNameRef st \<and> canPlayNext st then 1 else timeScale a)
           | WALK \<Rightarrow> 0.45
           | RUN \<Rightarrow> 0.45
           | JUMP_START \<Rightarrow> 1
           | JUMP_IDLE \<Rightarrow> 0
           | JUMP_FALL \<Rightarrow> 0
           | JUMP_LAND \<Rightarrow> 0.88)
     \<and> (n \<noteq> prevActionNameRef st \<and> canPlayNext st \<longrightarrow>
          (\<exists>st1. playNext n (prevActionNameRef st) st = Inr st1
             \<and> map_option timeScale (actions st1 n)
                 = Some (if n = ''JUMP_START'' \<or> n = ''JUMP_LAND'' then 0.5 else 1)))"
proof -
  have "\<exists>st'. statusEffect s st = Inr st'"
  proof (cases "n \<noteq> prevActionNameRef st \<and> canPlayNext st")
    case True
    with assms(3) have present: "actions st (prevActionNameRef st) \<noteq> None" by simp
    then obtain st1 where "playNext n (prevActionNameRef st) st = Inr st1"
      by (cases "n = ''JUMP_START'' \<or> n = ''JUMP_LAND''")
        (simp_all add: playNext_oneShot playNext_looping)
    with assms(1,2) True show ?thesis by (simp add: statusEffect_open)
  next
    case False
    with assms(1,2) show ?thesis by (auto simp: statusEffect_def Let_def)
  qed
  then obtain st' where run: "statusEffect s st = Inr st'" ..
  from timeScale_after_Inr [OF assms(1,2) run] run show ?thesis by blast
qed

theorem timeScale_after_update_witness:
  "mapAt (status_key JUMP_START) = Some ''JUMP_START''
   \<and> actions (mount allClips) ''JUMP_START'' = Some clip0
   \<and> actions (mount allClips) (prevActionNameRef (mount allClips)) \<noteq> None
   \<and> (\<exists>st'. statusEffect JUMP_START (mount allClips) = Inr st'
         \<and> map_option timeScale (actions st' ''JUMP_START'') = Some 1)"
proof -
  have 1: "mapAt (status_key JUMP_START) = Some ''JUMP_START''" by (simp add: mapAt_simps)
  have 2: "actions (mount allClips) ''JUMP_START'' = Some clip0"
    by (simp add: mount_fields allClips_def)
  have 3: "actions (mount allClips) (prevActionNameRef (mount allClips)) \<noteq> None"
    by (simp add: mount_fields allClips_def)
  from 3 have 4: "''JUMP_START'' = prevActionNameRef (mount allClips)
      \<or> \<not> canPlayNext (mount allClips)
      \<or> actions (mount allClips) (prevActionNameRef (mount allClips)) \<noteq> None" by simp
  from timeScale_after_update [OF 1 2 4] obtain st' where
    "statusEffect JUMP_START (mount allClips) = Inr st'"
    "map_option timeScale (actions st' ''JUMP_START'') = Some 1"
    by auto
  with 1 2 3 show ?thesis by blast
qed

section \<open>Properties of the water object\<close>

lemma quarter_turn: "cos (pi * - 0.5) = 0" "sin (pi * - 0.5) = - 1"
proof -
  have e: "pi * - 0.5 = - (pi / 2)" by simp
  show "cos (pi * - 0.5) = 0" unfolding e by simp
  show "sin (pi * - 0.5) = - 1" unfolding e by simp
qed

lemma renders_once:
  "(ObjectWater_render ^^ Suc k) ObjectWater_initial =
     \<lparr>display = Some buildWater, built = [buildWater], effectDeps = Some []\<rparr>"
  by (induction k) (simp_all add: ObjectWater_render_def ObjectWater_initial_def effectDue_def)

text \<open>
  C9. However often \<open>ObjectWater\<close> renders, it has built one water mesh, on mount, and
  displays it: a 10000 by 10000 plane turned by \<open>-pi/2\<close> about X, so that its corners
  have height 0 and its normal points up; \<open>resolutionScale\<close> 0.5, sun direction
  (0, 1, 0), sun colour white (255, 255, 255), water colour #6fb8ac, distortion scale 5;
  a double-sided material; position y = -5 and X rotation 0.
\<close>

theorem water_mesh_construction:
  "built ((ObjectWater_render ^^ Suc k) ObjectWater_initial) = [buildWater]
   \<and> display ((ObjectWater_render ^^ Suc k) ObjectWater_initial) = Some buildWater
   \<and> geometry buildWater = rotateX (- pi / 2) (PlaneGeometry 10000 10000)
   \<and> corners (geometry buildWater)
       = [(- 5000, 0, - 5000), (5000, 0, - 5000), (- 5000, 0, 5000), (5000, 0, 5000)]
   \<and> normal (geometry buildWater) = (0, 1, 0)
   \<and> resolutionScale (options buildWater) = 0.5
   \<and> sunDirection (options buildWater) = (0, 1, 0)
   \<and> sunColor (options buildWater) = 255 * 65536 + 255 * 256 + 255
   \<and> waterColor (options buildWater) = ''#6fb8ac''
   \<and> distortionScale (options buildWater) = 5
   \<and> materialSide buildWater = DoubleSide
   \<and> meshPosition buildWater = (0, - 5, 0)
   \<and> meshRotation buildWater = (0, 0, 0)"
proof -
  have e: "pi * - 0.5 = - pi / 2" by simp
  have g: "geometry buildWater = rotateX (- pi / 2) (PlaneGeometry 10000 10000)"
    by (simp add: buildWater_def WaterMesh_def e)
  have c: "corners (geometry buildWater)
       = [(- 5000, 0, - 5000), (5000, 0, - 5000), (- 5000, 0, 5000), (5000, 0, 5000)]"
    by (simp add: buildWater_def WaterMesh_def rotateX_def PlaneGeometry_def quarter_turn)
  have n: "normal (geometry buildWater) = (0, 1, 0)"
    by (simp add: buildWater_def WaterMesh_def rotateX_def PlaneGeometry_def quarter_turn)
  have o: "options buildWater = \<lparr>resolutionScale = 0.5, sunDirection = (0, 1, 0),
             sunColor = 16777215, waterColor = ''#6fb8ac'', distortionScale = 5,
             waterNormals = ''/textures/waternormals.jpg''\<rparr>"
    by (simp add: buildWater_def WaterMesh_def)
  have m: "materialSide buildWater = DoubleSide" "meshPosition buildWater = (0, - 5, 0)"
    "meshRotation buildWater = (0, 0, 0)"
    by (simp_all add: buildWater_def WaterMesh_def)
  have b: "built ((ObjectWater_render ^^ Suc k) ObjectWater_initial) = [buildWater]"
    and d: "display ((ObjectWater_render ^^ Suc k) ObjectWater_initial) = Some buildWater"
    unfolding renders_once by simp_all
  have w: "sunColor (options buildWater) = 255 * 65536 + 255 * 256 + 255"
    unfolding o by simp
  from b d g c n m w show ?thesis
    unfolding o by (intro conjI) simp_all
qed

section \<open>Properties of the camera rig and the build configuration\<close>

text \<open>
  C10. Given a camera, \<open>CamRig\<close> writes the position, quaternion and scale that the
  decomposition of the one hard-coded matrix of sixteen numbers yields, sets \<open>fov\<close> to
  50, \<open>far\<close> to 15000 and \<open>near\<close> to 5, and the projection update that follows reads
  these three values; without a camera it does nothing. The build configuration has
  server host "0.0.0.0", port 5173, \<open>allowedHosts\<close> with the imported \<open>fronthost\<close> as its
  only entry, and the plugin list React, Tailwind in this order.
\<close>

theorem camera_rig_and_build_config:
  "(\<exists>cam'. CamRig_effect decompose (Some cam) = Some cam'
       \<and> (position cam', quaternion cam', scale cam') = decompose m4
       \<and> length m4 = 16
       \<and> fov cam' = 50 \<and> far cam' = 15000 \<and> near cam' = 5
       \<and> projection cam' = Some (50, 5, 15000))
   \<and> CamRig_effect decompose None = None
   \<and> host (server (defineConfig fronthost)) = ''0.0.0.0''
   \<and> port (server (defineConfig fronthost)) = 5173
   \<and> allowedHosts (server (defineConfig fronthost)) = [fronthost]
   \<and> plugins (defineConfig fronthost) = [React_plugin, Tailwindcss_plugin]"
proof -
  obtain p q s where d: "decompose m4 = (p, q, s)"
    by (cases "decompose m4") auto
  have "CamRig_effect decompose (Some cam) =
      Some (updateProjectionMatrix
        (cam\<lparr>position := p, quaternion := q, scale := s, fov := 50, far := 15000, near := 5\<rparr>))"
    by (simp add: CamRig_effect_def d)
  moreover have "length m4 = 16" by (simp add: m4_def)
  ultimately have "\<exists>cam'. CamRig_effect decompose (Some cam) = Some cam'
       \<and> (position cam', quaternion cam', scale cam') = decompose m4
       \<and> length m4 = 16
       \<and> fov cam' = 50 \<and> far cam' = 15000 \<and> near cam' = 5
       \<and> projection cam' = Some (50, 5, 15000)"
    by (simp add: updateProjectionMatrix_def d)
  moreover have "CamRig_effect decompose None = None"
    by (simp add: CamRig_effect_def)
  ultimately show ?thesis
    by (simp add: defineConfig_def)
qed

end
